theory Spec2Isabelle
  imports Main "HOL-Library.AList"
begin

section \<open>Python values, exceptions and built-ins used by the parser\<close>

text \<open>
  The parser of \<^verbatim>\<open>handparser/ftp.py\<close> is Python 2 code (\<^verbatim>\<open>self.players.keys().index\<close>):
  its strings are byte strings, here \<^typ>\<open>string\<close>. Every exception the code can raise is
  a value of \<open>error\<close>; a function that raises returns \<open>Inl\<close>.
\<close>

datatype error =
  AttributeError | IndexError | KeyError | ValueError | UnboundLocalError
  | InvalidOperation | OverflowError

text \<open>\<^verbatim>\<open>decimal.Decimal\<close>: sign, integer coefficient and exponent; no binary fraction.\<close>

datatype decimal =
  Finite bool nat int
  | Infinity bool
  | NaN bool bool nat

text \<open>A \<^verbatim>\<open>datetime\<close>: year, month, day, hour, minute, second and the UTC offset in
  minutes of its \<^verbatim>\<open>tzinfo\<close> (\<open>None\<close> when naive).\<close>

datatype datetime = Datetime int int int int int int "int option"

datatype pyval =
  PNone
  | PBool bool
  | PInt int
  | PStr string
  | PDecimal decimal
  | PTuple "string list"
  | PDict "(string \<times> int) list"
  | PDatetime datetime

definition is_digit :: "char \<Rightarrow> bool" where
  "is_digit c = (c \<in> set ''0123456789'')"

definition is_space :: "char \<Rightarrow> bool" where
  "is_space c = (c \<in> {CHR '' '', CHR 0x09, CHR 0x0A, CHR 0x0B, CHR 0x0C, CHR 0x0D})"

definition digit_val :: "char \<Rightarrow> nat" where
  "digit_val c = of_char c - 48"

definition nat_of_digits :: "string \<Rightarrow> nat" where
  "nat_of_digits ds = foldl (\<lambda>acc c. 10 * acc + digit_val c) 0 ds"

definition digit_chr :: "nat \<Rightarrow> char" where
  "digit_chr n = char_of (48 + n)"

text \<open>\<^verbatim>\<open>'%s' % num\<close> for a non-negative integer.\<close>

fun str_of_nat :: "nat \<Rightarrow> string" where
  "str_of_nat n = (if n < 10 then [digit_chr n] else str_of_nat (n div 10) @ [digit_chr (n mod 10)])"

text \<open>\<^verbatim>\<open>s.strip()\<close>\<close>

definition strip :: "string \<Rightarrow> string" where
  "strip s = rev (dropWhile is_space (rev (dropWhile is_space s)))"

text \<open>\<^verbatim>\<open>s.split()\<close>: the maximal runs of non-whitespace characters.\<close>

fun split_ws :: "string \<Rightarrow> string \<Rightarrow> string list" where
  "split_ws word [] = (if word = [] then [] else [word])"
| "split_ws word (c # cs) =
     (if is_space c then (if word = [] then split_ws [] cs else word # split_ws [] cs)
      else split_ws (word @ [c]) cs)"

definition py_split :: "string \<Rightarrow> string list" where
  "py_split s = split_ws [] s"

text \<open>\<^verbatim>\<open>s.replace(',', '')\<close>\<close>

definition remove_commas :: "string \<Rightarrow> string" where
  "remove_commas s = filter (\<lambda>c. c \<noteq> CHR '','') s"

definition lower :: "string \<Rightarrow> string" where
  "lower s = map (\<lambda>c. if 65 \<le> (of_char c :: nat) \<and> (of_char c :: nat) \<le> 90
                         then char_of ((of_char c :: nat) + 32) else c) s"

definition split_sign :: "string \<Rightarrow> bool \<times> string" where
  "split_sign s =
     (case s of
        [] \<Rightarrow> (False, [])
      | c # cs \<Rightarrow> if c = CHR ''-'' then (True, cs) else if c = CHR ''+'' then (False, cs)
                  else (False, s))"

text \<open>\<^verbatim>\<open>int(s)\<close> on a string: surrounding whitespace, an optional sign and at least one
  decimal digit; anything else raises \<^verbatim>\<open>ValueError\<close>.\<close>

definition py_int :: "string \<Rightarrow> error + int" where
  "py_int s =
     (let (neg, ds) = split_sign (strip s)
      in if ds \<noteq> [] \<and> list_all is_digit ds
         then Inr (if neg then - int (nat_of_digits ds) else int (nat_of_digits ds))
         else Inl ValueError)"

text \<open>The exponent part of a decimal literal: \<^verbatim>\<open>(E[-+]?\d+)?\<close> up to the end.\<close>

definition exponent_part :: "string \<Rightarrow> int option" where
  "exponent_part s =
     (case s of
        [] \<Rightarrow> Some 0
      | c # cs \<Rightarrow>
          if c = CHR ''e'' \<or> c = CHR ''E'' then
            (let (neg, ds) = split_sign cs
             in if ds \<noteq> [] \<and> list_all is_digit ds
                then Some (if neg then - int (nat_of_digits ds) else int (nat_of_digits ds))
                else None)
          else None)"

text \<open>A finite decimal literal without its sign: digits, an optional point with more
  digits, an optional exponent; at least one digit before the exponent. The result is
  the coefficient \<^verbatim>\<open>int(intpart + fracpart)\<close> and the exponent \<^verbatim>\<open>exp - len(fracpart)\<close>.\<close>

definition finite_literal :: "string \<Rightarrow> (nat \<times> int) option" where
  "finite_literal s =
     (let intpart = takeWhile is_digit s;
          r1 = dropWhile is_digit s;
          (fracpart, r2) =
             (case r1 of
                [] \<Rightarrow> ([], r1)
              | c # cs \<Rightarrow> if c = CHR ''.'' then (takeWhile is_digit cs, dropWhile is_digit cs)
                          else ([], r1))
      in if intpart = [] \<and> fracpart = [] then None
         else (case exponent_part r2 of
                 None \<Rightarrow> None
               | Some e \<Rightarrow> Some (nat_of_digits (intpart @ fracpart), e - int (length fracpart))))"

definition nan_literal :: "string \<Rightarrow> (bool \<times> nat) option" where
  "nan_literal s =
     (let (signal, r) = (case s of [] \<Rightarrow> (False, s)
                          | c # cs \<Rightarrow> if c = CHR ''s'' then (True, cs) else (False, s))
      in if take 3 r = ''nan'' \<and> list_all is_digit (drop 3 r)
         then Some (signal, nat_of_digits (drop 3 r)) else None)"

text \<open>\<^verbatim>\<open>Decimal(value)\<close> on a string, under the default context: a text that is not a
  decimal literal raises \<^verbatim>\<open>decimal.InvalidOperation\<close> (an \<^verbatim>\<open>ArithmeticError\<close>, not a
  \<^verbatim>\<open>ValueError\<close>).\<close>

definition Decimal :: "string \<Rightarrow> error + decimal" where
  "Decimal v =
     (let (neg, body) = split_sign (strip v)
      in case finite_literal body of
           Some (coeff, e) \<Rightarrow> Inr (Finite neg coeff e)
         | None \<Rightarrow>
             if lower body = ''inf'' \<or> lower body = ''infinity'' then Inr (Infinity neg)
             else (case nan_literal (lower body) of
                     Some (signal, diag) \<Rightarrow> Inr (NaN neg signal diag)
                   | None \<Rightarrow> Inl InvalidOperation))"

text \<open>\<^verbatim>\<open>xs[i]\<close>: positions \<open>0 .. len - 1\<close> from the front, \<open>-1 .. -len\<close> from the back,
  \<^verbatim>\<open>IndexError\<close> elsewhere. \<open>position\<close> is the place in the list that \<open>i\<close> names.\<close>

definition position :: "nat \<Rightarrow> int \<Rightarrow> nat option" where
  "position len i =
     (if 0 \<le> i \<and> i < int len then Some (nat i)
      else if i < 0 \<and> - int len \<le> i then Some (nat (int len + i))
      else None)"

definition item :: "'a list \<Rightarrow> int \<Rightarrow> error + 'a" where
  "item xs i = (case position (length xs) i of None \<Rightarrow> Inl IndexError | Some j \<Rightarrow> Inr (xs ! j))"

text \<open>\<^verbatim>\<open>xs[i] = v\<close>\<close>

definition setitem :: "'a list \<Rightarrow> int \<Rightarrow> 'a \<Rightarrow> error + 'a list" where
  "setitem xs i v =
     (case position (length xs) i of None \<Rightarrow> Inl IndexError | Some j \<Rightarrow> Inr (xs[j := v]))"

text \<open>\<^verbatim>\<open>xs.index(x)\<close> and \<^verbatim>\<open>xs.index(x, start)\<close>: the first position of \<open>x\<close>, or
  \<^verbatim>\<open>ValueError\<close>.\<close>

primrec first_index :: "'a \<Rightarrow> 'a list \<Rightarrow> nat option" where
  "first_index x [] = None"
| "first_index x (y # ys) = (if y = x then Some 0 else map_option Suc (first_index x ys))"

definition index :: "'a list \<Rightarrow> 'a \<Rightarrow> error + nat" where
  "index xs x = (case first_index x xs of None \<Rightarrow> Inl ValueError | Some i \<Rightarrow> Inr i)"

definition index_from :: "'a list \<Rightarrow> 'a \<Rightarrow> nat \<Rightarrow> error + nat" where
  "index_from xs x start =
     (case first_index x (drop start xs) of None \<Rightarrow> Inl ValueError | Some i \<Rightarrow> Inr (start + i))"

text \<open>\<^verbatim>\<open>xs[start:stop]\<close> for non-negative bounds.\<close>

definition slice :: "'a list \<Rightarrow> nat \<Rightarrow> nat \<Rightarrow> 'a list" where
  "slice xs start stop = drop start (take stop xs)"

text \<open>\<^verbatim>\<open>OrderedDict(pairs)\<close>: a key keeps the position of its first insertion and the
  value of its last.\<close>

definition OrderedDict :: "(string \<times> int) list \<Rightarrow> (string \<times> int) list" where
  "OrderedDict pairs = foldl (\<lambda>d (k, v). AList.update k v d) [] pairs"

section \<open>Regular expressions\<close>

text \<open>
  The fragment of \<^verbatim>\<open>re\<close> that the patterns of \<^verbatim>\<open>FullTiltHand\<close> use. Repetition is only
  applied to character sets. \<open>rx_run\<close> lists the ways a pattern can match at the start of
  a text, in the order the backtracking matcher tries them: each is the text left over
  and the groups captured. \<^verbatim>\<open>pattern.match\<close> takes the first.
\<close>

datatype cset = Dot | Digit | Lit char | Or cset cset

primrec cset_has :: "cset \<Rightarrow> char \<Rightarrow> bool" where
  "cset_has Dot c = (c \<noteq> CHR 0x0A)"
| "cset_has Digit c = is_digit c"
| "cset_has (Lit d) c = (c = d)"
| "cset_has (Or a b) c = (cset_has a c \<or> cset_has b c)"

datatype rx =
  Str string
  | One cset
  | Opt cset
  | Star cset
  | StarLazy cset
  | Group string rx
  | Then rx rx
  | Alt rx rx
  | Eol

text \<open>\<open>p*\<close> from position \<open>n\<close>: the longest run first. \<open>shorter\<close> holds the ends already
  passed, nearest first.\<close>

primrec star_greedy :: "cset \<Rightarrow> nat \<Rightarrow> string \<Rightarrow> (nat \<times> string) list \<Rightarrow> (nat \<times> string) list" where
  "star_greedy p n [] shorter = (n, []) # shorter"
| "star_greedy p n (c # cs) shorter =
     (if cset_has p c then star_greedy p (Suc n) cs ((n, c # cs) # shorter)
      else (n, c # cs) # shorter)"

text \<open>\<open>p*?\<close> from position \<open>n\<close>: the shortest run first.\<close>

primrec star_lazy :: "cset \<Rightarrow> nat \<Rightarrow> string \<Rightarrow> (nat \<times> string) list" where
  "star_lazy p n [] = [(n, [])]"
| "star_lazy p n (c # cs) = (n, c # cs) # (if cset_has p c then star_lazy p (Suc n) cs else [])"

text \<open>The span of each group: where it starts and where it ends.\<close>

type_synonym spans = "string \<rightharpoonup> nat \<times> nat"

text \<open>A matcher state: the position reached, the text from there on, the groups so far.\<close>

type_synonym mstate = "nat \<times> string \<times> spans"

fun rx_run :: "rx \<Rightarrow> mstate \<Rightarrow> mstate list" where
  "rx_run (Str lit) (n, s, g) =
     (if take (length lit) s = lit then [(n + length lit, drop (length lit) s, g)] else [])"
| "rx_run (One p) (n, s, g) =
     (case s of [] \<Rightarrow> [] | c # cs \<Rightarrow> if cset_has p c then [(Suc n, cs, g)] else [])"
| "rx_run (Opt p) (n, s, g) =
     (case s of
        [] \<Rightarrow> [(n, s, g)]
      | c # cs \<Rightarrow> if cset_has p c then [(Suc n, cs, g), (n, s, g)] else [(n, s, g)])"
| "rx_run (Star p) (n, s, g) = map (\<lambda>(n', s'). (n', s', g)) (star_greedy p n s [])"
| "rx_run (StarLazy p) (n, s, g) = map (\<lambda>(n', s'). (n', s', g)) (star_lazy p n s)"
| "rx_run (Group name r) (n, s, g) =
     map (\<lambda>(n', s', g'). (n', s', g'(name \<mapsto> (n, n')))) (rx_run r (n, s, g))"
| "rx_run (Then r1 r2) st = concat (map (rx_run r2) (rx_run r1 st))"
| "rx_run (Alt r1 r2) st = rx_run r1 st @ rx_run r2 st"
| "rx_run Eol (n, s, g) = (if s = [] \<or> s = [CHR 0x0A] then [(n, s, g)] else [])"

definition seq :: "rx list \<Rightarrow> rx" where
  "seq rs = foldr Then rs (Str [])"

text \<open>A match object: the text and the spans of the groups of the first match.\<close>

type_synonym match = "string \<times> spans"

text \<open>\<^verbatim>\<open>pattern.match(text)\<close>: \<open>None\<close> or the first match. A leading \<^verbatim>\<open>^\<close> holds at
  the start of the text, where \<^verbatim>\<open>match\<close> begins.\<close>

definition re_match :: "rx \<Rightarrow> string \<Rightarrow> match option" where
  "re_match p s =
     (case rx_run p (0, s, Map.empty) of [] \<Rightarrow> None | (n, r, g) # _ \<Rightarrow> Some (s, g))"

text \<open>\<^verbatim>\<open>match.group(k)\<close>. Every group of the patterns below takes part in every match
  of its pattern, so the default is never returned.\<close>

definition group :: "match \<Rightarrow> string \<Rightarrow> string" where
  "group m k =
     (case snd m k of None \<Rightarrow> [] | Some (b, e) \<Rightarrow> take (e - b) (drop b (fst m)))"

text \<open>The length of the first match of the pattern at the start of \<open>s\<close>.\<close>

definition match_end :: "rx \<Rightarrow> string \<Rightarrow> nat option" where
  "match_end p s = (case rx_run p (0, s, Map.empty) of [] \<Rightarrow> None | (n, r, g) # _ \<Rightarrow> Some n)"

text \<open>\<^verbatim>\<open>pattern.split(text)\<close>: the pieces between the leftmost non-overlapping
  non-empty matches. The head of the result is the piece that starts at the current
  position (the result is never empty).\<close>

fun re_split :: "rx \<Rightarrow> string \<Rightarrow> string list" where
  "re_split p [] = [[]]"
| "re_split p (c # cs) =
     (let extend = (\<lambda>pieces. case pieces of [] \<Rightarrow> [[c]] | x # xs \<Rightarrow> (c # x) # xs)
      in case match_end p (c # cs) of
           None \<Rightarrow> extend (re_split p cs)
         | Some 0 \<Rightarrow> extend (re_split p cs)
         | Some (Suc k) \<Rightarrow> [] # re_split p (drop k cs))"

section \<open>The patterns of FullTiltHand\<close>

definition date_format :: string where
  "date_format = ''%H:%M:%S ET - %Y/%m/%d''"

text \<open>\<^verbatim>\<open>r" ?\*\*\* ?\n?|\n"\<close>\<close>

definition split_pattern :: rx where
  "split_pattern =
     Alt (seq [Opt (Lit CHR '' ''), Str ''***'', Opt (Lit CHR '' ''), Opt (Lit CHR 0x0A)])
         (Str [CHR 0x0A])"

definition header_pattern :: rx where
  "header_pattern = seq
     [Str ''Full Tilt Poker '',
      Str ''Game #'', Group ''ident'' (Star Digit), Str '': '',
      Group ''tournament_name'' (Star Dot), Str '' '',
      Str ''('', Group ''tournament_ident'' (Star Digit), Str ''), '',
      Str ''Table '', Group ''table_name'' (Star Digit), Str '' - '',
      Group ''limit'' (Str ''NL''), Str '' '',
      Group ''game'' (Star Dot), Str '' - '',
      Group ''sb'' (Star Dot), Str ''/'', Group ''bb'' (StarLazy Dot), Str '' - '',
      Star Dot, Str '' '',
      Str ''['', Group ''date'' (Star Dot), Str '']'', Eol]"

text \<open>\<^verbatim>\<open>r"^Seat (\d): (.*) \(([\d,]*)\)$"\<close>\<close>

definition seat_pattern :: rx where
  "seat_pattern = seq
     [Str ''Seat '', Group ''1'' (One Digit), Str '': '', Group ''2'' (Star Dot), Str '' ('',
      Group ''3'' (Star (Or Digit (Lit CHR '',''))), Str '')'', Eol]"

text \<open>\<^verbatim>\<open>r"^The button is in seat #(\d)$"\<close>\<close>

definition button_pattern :: rx where
  "button_pattern = seq [Str ''The button is in seat #'', Group ''1'' (One Digit), Eol]"

text \<open>\<^verbatim>\<open>r"^Dealt to (.*) \[(..) (..)\]$"\<close>\<close>

definition hole_cards_pattern :: rx where
  "hole_cards_pattern = seq
     [Str ''Dealt to '', Group ''1'' (Star Dot), Str '' ['',
      Group ''2'' (Then (One Dot) (One Dot)), Str '' '',
      Group ''3'' (Then (One Dot) (One Dot)), Str '']'', Eol]"

text \<open>\<^verbatim>\<open>r"\[(.*)\] \(Total Pot: (\d*)\, (\d) Players"\<close>\<close>

definition street_pattern :: rx where
  "street_pattern = seq
     [Str ''['', Group ''1'' (Star Dot), Str ''] (Total Pot: '', Group ''2'' (Star Digit),
      Str '', '', Group ''3'' (One Digit), Str '' Players'']"

section \<open>The hand object\<close>

text \<open>
  A \<^verbatim>\<open>FullTiltHand\<close> object: the fragments and the positions of the section boundaries
  that \<^verbatim>\<open>__init__\<close> computes, and the attributes that the parse assigns
  (\<^verbatim>\<open>setattr\<close> with computed names included). An attribute that was never assigned
  is \<open>None\<close> in \<open>attrs\<close>; one assigned Python's \<^verbatim>\<open>None\<close> is \<open>Some PNone\<close>.
  A method returns the updated object, or the exception with the object as it was when
  the exception was raised.
\<close>

record hand =
  splitted :: "string list"
  sections :: "nat list"
  attrs :: "string \<rightharpoonup> pyval"

type_synonym outcome = "error \<times> hand + hand"

definition setattr :: "hand \<Rightarrow> string \<Rightarrow> pyval \<Rightarrow> hand" where
  "setattr h name v = h\<lparr>attrs := (attrs h)(name \<mapsto> v)\<rparr>"

text \<open>Evaluate an expression that may raise, in the object state \<open>h\<close>.\<close>

definition attempt :: "error + 'a \<Rightarrow> hand \<Rightarrow> ('a \<Rightarrow> outcome) \<Rightarrow> outcome" where
  "attempt r h k = (case r of Inl e \<Rightarrow> Inl (e, h) | Inr x \<Rightarrow> k x)"

text \<open>Run the next statement unless the previous one raised.\<close>

definition and_then :: "outcome \<Rightarrow> (hand \<Rightarrow> outcome) \<Rightarrow> outcome" where
  "and_then r k = (case r of Inl eh \<Rightarrow> Inl eh | Inr h \<Rightarrow> k h)"

text \<open>The names imported from \<^verbatim>\<open>handparser.common\<close> and the standard library that
  \<^verbatim>\<open>parse_header\<close> calls: the table \<^verbatim>\<open>GAMES\<close>, \<^verbatim>\<open>datetime.strptime\<close>,
  \<^verbatim>\<open>ET.localize\<close> and \<^verbatim>\<open>astimezone(UTC)\<close>. They are parameters of the model.\<close>

record env =
  GAMES :: "string \<rightharpoonup> string"
  strptime :: "string \<Rightarrow> string \<Rightarrow> error + datetime"
  ET_localize :: "datetime \<Rightarrow> error + datetime"
  astimezone_UTC :: "datetime \<Rightarrow> error + datetime"

text \<open>\<^verbatim>\<open>[ind for ind, elem in enumerate(self._splitted) if not elem]\<close>\<close>

definition boundaries :: "string list \<Rightarrow> nat list" where
  "boundaries sp = map fst (filter (\<lambda>(ind, elem). elem = []) (enumerate 0 sp))"

text \<open>The object with the fragments \<open>sp\<close>, their boundaries and no parsed attribute yet.\<close>

definition hand_of :: "string list \<Rightarrow> hand" where
  "hand_of sp = \<lparr>splitted = sp, sections = boundaries sp, attrs = Map.empty\<rparr>"

text \<open>\<^verbatim>\<open>__init__\<close> up to the call of \<^verbatim>\<open>parse\<close>; \<open>raw\<close> is \<^verbatim>\<open>self.raw\<close>, the hand text as
  the base class stored it (it is not read again after the split).\<close>

definition init :: "string \<Rightarrow> hand" where
  "init raw = hand_of (re_split split_pattern raw)"

definition parse_header :: "env \<Rightarrow> hand \<Rightarrow> outcome" where
  "parse_header E h =
     attempt (item (splitted h) 0) h (\<lambda>line.
       let match = re_match header_pattern line;
           h1 = setattr h ''game_type'' (PStr ''TOUR'')
       in case match of
            None \<Rightarrow> Inl (AttributeError, h1)
          | Some m \<Rightarrow>
              attempt (Decimal (group m ''sb'')) h1 (\<lambda>sb.
                let h2 = setattr h1 ''sb'' (PDecimal sb)
                in attempt (Decimal (group m ''bb'')) h2 (\<lambda>bb.
                  let h3 = setattr h2 ''bb'' (PDecimal bb)
                  in attempt (strptime E (group m ''date'') date_format) h3 (\<lambda>naive.
                    attempt (ET_localize E naive) h3 (\<lambda>date.
                      attempt (astimezone_UTC E date) h3 (\<lambda>utc.
                        let h4 = setattr h3 ''date'' (PDatetime utc)
                        in case GAMES E (group m ''game'') of
                             None \<Rightarrow> Inl (KeyError, h4)
                           | Some game \<Rightarrow>
                               let h5 = setattr h4 ''game'' (PStr game);
                                   h6 = setattr h5 ''limit'' (PStr (group m ''limit''));
                                   h7 = setattr h6 ''ident'' (PStr (group m ''ident''));
                                   h8 = setattr h7 ''tournament_ident''
                                          (PStr (group m ''tournament_ident''));
                                   h9 = setattr h8 ''tournament_name''
                                          (PStr (group m ''tournament_name''));
                                   h10 = setattr h9 ''table_name'' (PStr (group m ''table_name''));
                                   h11 = setattr h10 ''tournament_level'' PNone;
                                   h12 = setattr h11 ''buyin'' PNone;
                                   h13 = setattr h12 ''rake'' PNone;
                                   h14 = setattr h13 ''currency'' PNone
                               in Inr (setattr h14 ''header_parsed'' (PBool True))))))))"

text \<open>Modelled from the spec: \<^verbatim>\<open>PokerHand.parse\<close>, the base-class method of
  \<^verbatim>\<open>handparser.common\<close> that \<^verbatim>\<open>FullTiltHand.parse\<close> calls first; the module is not
  among the sources. The header extractor runs before everything else, and a header
  that fails aborts the parse.\<close>

definition PokerHand_parse :: "env \<Rightarrow> hand \<Rightarrow> outcome" where
  "PokerHand_parse E h = parse_header E h"

text \<open>The loop of \<^verbatim>\<open>_parse_seats\<close> over \<^verbatim>\<open>self._splitted[1:]\<close>. \<open>seat_number\<close> is
  \<open>None\<close> until the first assignment to the local variable.\<close>

fun seats_loop ::
  "string list \<Rightarrow> (string \<times> int) list \<Rightarrow> int option
     \<Rightarrow> error + (string \<times> int) list \<times> int option" where
  "seats_loop [] players seat_number = Inr (players, seat_number)"
| "seats_loop (line # rest) players seat_number =
     (case re_match seat_pattern line of
        None \<Rightarrow> Inr (players, seat_number)
      | Some m \<Rightarrow>
          (case py_int (group m ''1'') of
             Inl e \<Rightarrow> Inl e
           | Inr sn \<Rightarrow>
               (case py_int (remove_commas (group m ''3'')) of
                  Inl e \<Rightarrow> Inl e
                | Inr stack \<Rightarrow>
                    (case setitem players (sn - 1) (group m ''2'', stack) of
                       Inl e \<Rightarrow> Inl e
                     | Inr players' \<Rightarrow> seats_loop rest players' (Some sn)))))"

definition empty_seats :: "(string \<times> int) list" where
  "empty_seats = map (\<lambda>num. (''Empty Seat '' @ str_of_nat num, 0)) [1..<10]"

definition parse_seats :: "hand \<Rightarrow> outcome" where
  "parse_seats h =
     attempt (seats_loop (drop 1 (splitted h)) empty_seats None) h (\<lambda>(players, seat_number).
       case seat_number of
         None \<Rightarrow> Inl (UnboundLocalError, h)
       | Some sn \<Rightarrow>
           let h1 = setattr h ''max_players'' (PInt sn);
               h2 = setattr h1 ''players'' (PDict (OrderedDict players))
           in attempt (item (sections h2) 0) h2 (\<lambda>s0.
                attempt (item (splitted h2) (int s0 - 1)) h2 (\<lambda>button_line.
                  case re_match button_pattern button_line of
                    None \<Rightarrow> Inl (AttributeError, h2)
                  | Some m \<Rightarrow>
                      attempt (py_int (group m ''1'')) h2 (\<lambda>button_seat.
                        let h3 = setattr h2 ''button_seat'' (PInt button_seat)
                        in attempt (item players (button_seat - 1)) h3 (\<lambda>p.
                             Inr (setattr h3 ''button'' (PStr (fst p))))))))"

definition parse_hole_cards :: "hand \<Rightarrow> outcome" where
  "parse_hole_cards h =
     attempt (item (sections h) 0) h (\<lambda>s0.
       attempt (item (splitted h) (int s0 + 2)) h (\<lambda>hole_cards_line.
         case re_match hole_cards_pattern hole_cards_line of
           None \<Rightarrow> Inl (AttributeError, h)
         | Some m \<Rightarrow>
             let h1 = setattr h ''hero'' (PStr (group m ''1''))
             in (case attrs h1 ''players'' of
                   Some (PDict d) \<Rightarrow>
                     attempt (index (map fst d) (group m ''1'')) h1 (\<lambda>i.
                       let h2 = setattr h1 ''hero_seat'' (PInt (int i + 1))
                       in Inr (setattr h2 ''hero_hole_cards''
                                 (PTuple [group m ''2'', group m ''3''])))
                 | _ \<Rightarrow> Inl (AttributeError, h1))))"

definition parse_preflop :: "hand \<Rightarrow> outcome" where
  "parse_preflop h =
     attempt (item (sections h) 0) h (\<lambda>s0.
       attempt (item (sections h) 1) h (\<lambda>stop.
         Inr (setattr h ''preflop_actions'' (PTuple (slice (splitted h) (s0 + 3) stop)))))"

definition parse_boardline :: "nat \<Rightarrow> string \<Rightarrow> hand \<Rightarrow> outcome" where
  "parse_boardline start street h =
     attempt (item (splitted h) (int start)) h (\<lambda>board_line.
       case re_match street_pattern board_line of
         None \<Rightarrow> Inl (AttributeError, h)
       | Some m \<Rightarrow>
           let h1 = setattr h street (PTuple (py_split (group m ''1'')))
           in attempt (Decimal (group m ''2'')) h1 (\<lambda>pot.
                let h2 = setattr h1 (street @ ''_pot'') (PDecimal pot)
                in attempt (py_int (group m ''3'')) h2 (\<lambda>num_players.
                     Inr (setattr h2 (street @ ''_num_players'') (PInt num_players)))))"

definition upper :: "string \<Rightarrow> string" where
  "upper s = map (\<lambda>c. if 97 \<le> (of_char c :: nat) \<and> (of_char c :: nat) \<le> 122
                         then char_of ((of_char c :: nat) - 32) else c) s"

text \<open>The guarded block of \<^verbatim>\<open>_parse_street\<close>, up to the handler.\<close>

definition street_body :: "string \<Rightarrow> hand \<Rightarrow> outcome" where
  "street_body street h =
     attempt (index (splitted h) (upper street)) h (\<lambda>i.
       let start = i + 1
       in and_then (parse_boardline start street h) (\<lambda>h1.
            attempt (index_from (splitted h1) [] (start + 1)) h1 (\<lambda>stop.
              let street_actions = slice (splitted h1) (start + 1) stop
              in Inr (setattr h1 (street @ ''_actions'')
                        (if street_actions \<noteq> [] then PTuple street_actions else PNone)))))"

text \<open>The \<^verbatim>\<open>except ValueError\<close> handler.\<close>

definition street_absent :: "string \<Rightarrow> hand \<Rightarrow> hand" where
  "street_absent street h =
     (let h1 = setattr h street PNone;
          h2 = setattr h1 (street @ ''_actions'') PNone;
          h3 = setattr h2 (street @ ''_pot'') PNone
      in setattr h3 (street @ ''_num_players'') PNone)"

definition parse_street :: "string \<Rightarrow> hand \<Rightarrow> outcome" where
  "parse_street street h =
     (case street_body street h of
        Inl (e, h') \<Rightarrow> if e = ValueError then Inr (street_absent street h') else Inl (e, h')
      | Inr h' \<Rightarrow> Inr h')"

definition parse :: "env \<Rightarrow> hand \<Rightarrow> outcome" where
  "parse E h =
     and_then (PokerHand_parse E h) (\<lambda>h.
     and_then (parse_seats h) (\<lambda>h.
     and_then (parse_hole_cards h) (\<lambda>h.
     and_then (parse_preflop h) (\<lambda>h.
     and_then (parse_street ''flop'' h) (\<lambda>h.
     and_then (parse_street ''turn'' h) (\<lambda>h.
       parse_street ''river'' h))))))"

text \<open>\<^verbatim>\<open>FullTiltHand(hand_text)\<close> with \<^verbatim>\<open>parse=True\<close>.\<close>

definition FullTiltHand :: "env \<Rightarrow> string \<Rightarrow> outcome" where
  "FullTiltHand E raw = parse E (init raw)"

section \<open>Sample hands\<close>

text \<open>An environment in which Hold'em is a known game and the sample date converts.\<close>

definition sample_env :: env where
  "sample_env =
     \<lparr>GAMES = [''Hold'em'' \<mapsto> ''HOLDEM''],
      strptime = (\<lambda>s f. if s = ''21:05:00 ET - 2013/07/01'' \<and> f = ''%H:%M:%S ET - %Y/%m/%d''
                         then Inr (Datetime 2013 7 1 21 5 0 None) else Inl ValueError),
      ET_localize = (\<lambda>d. case d of Datetime y m dd hh mi ss z \<Rightarrow>
                            Inr (Datetime y m dd hh mi ss (Some (- 240)))),
      astimezone_UTC = (\<lambda>d. if d = Datetime 2013 7 1 21 5 0 (Some (- 240))
                              then Inr (Datetime 2013 7 2 1 5 0 (Some 0)) else Inl OverflowError)\<rparr>"

text \<open>Seats 1, 3 and 5; the hero in seat 3; a flop with two actions, a turn with none,
  no river.\<close>

definition sample_header :: string where
  "sample_header =
     ''Full Tilt Poker Game #1: T (2), Table 3 - NL Hold'em - 10/20 - x [21:05:00 ET - 2013/07/01]''"

definition sample_hand :: hand where
  "sample_hand = hand_of
     [sample_header,
      ''Seat 1: Bob (1,500)'',
      ''Seat 3: Alice (980)'',
      ''Seat 5: Cy (520)'',
      ''The button is in seat #1'',
      [], ''HOLE CARDS'',
      ''Dealt to Alice [Ah Kd]'',
      ''Bob folds'',
      ''Cy calls 10'',
      [], ''FLOP'', ''[8h 4h Tc] (Total Pot: 40, 2 Players)'',
      ''Cy bets 80'',
      ''Alice calls 80'',
      [], ''TURN'', ''[Kc] (Total Pot: 200, 2 Players)'',
      [], ''SUMMARY'',
      ''Total pot 200'']"

text \<open>The text of the sample hand.\<close>

definition sample_text :: string where
  "sample_text =
     sample_header @ ''\<newline>'' @
     ''Seat 1: Bob (1,500)\<newline>'' @
     ''Seat 3: Alice (980)\<newline>'' @
     ''Seat 5: Cy (520)\<newline>'' @
     ''The button is in seat #1\<newline>'' @
     ''*** HOLE CARDS ***\<newline>'' @
     ''Dealt to Alice [Ah Kd]\<newline>'' @
     ''Bob folds\<newline>'' @
     ''Cy calls 10\<newline>'' @
     ''*** FLOP *** [8h 4h Tc] (Total Pot: 40, 2 Players)\<newline>'' @
     ''Cy bets 80\<newline>'' @
     ''Alice calls 80\<newline>'' @
     ''*** TURN *** [Kc] (Total Pot: 200, 2 Players)\<newline>'' @
     ''*** SUMMARY ***\<newline>'' @
     ''Total pot 200''"

text \<open>A flop whose board line lacks the brackets.\<close>

definition malformed_flop_hand :: hand where
  "malformed_flop_hand = hand_of
     [''H'', [], ''FLOP'', ''8h 4h Tc (Total Pot: 40, 2 Players)'', ''Cy bets 80'', [],
      ''SUMMARY'']"

text \<open>No seat line after the header.\<close>

definition no_seats_hand :: hand where
  "no_seats_hand = hand_of
     [''H'', ''The button is in seat #1'', [], ''HOLE CARDS'', ''Dealt to Alice [Ah Kd]'', [],
      ''SUMMARY'']"

section \<open>Reading an outcome\<close>

text \<open>The attribute \<open>k\<close> of the object a method returned: \<open>None\<close> when the method raised
  or the attribute was never assigned.\<close>

definition attr_of :: "outcome \<Rightarrow> string \<Rightarrow> pyval option" where
  "attr_of r k = (case r of Inl eh \<Rightarrow> None | Inr h \<Rightarrow> attrs h k)"

text \<open>The four attributes that \<^verbatim>\<open>_parse_street\<close> assigns for a street.\<close>

definition street_keys :: "string \<Rightarrow> string set" where
  "street_keys street =
     {street, street @ ''_actions'', street @ ''_pot'', street @ ''_num_players''}"

text \<open>\<open>h'\<close> differs from \<open>h\<close> at most in the attributes \<open>ks\<close>.\<close>

definition untouched :: "string set \<Rightarrow> hand \<Rightarrow> hand \<Rightarrow> bool" where
  "untouched ks h h' =
     (splitted h' = splitted h \<and> sections h' = sections h \<and> (\<forall>k. k \<notin> ks \<longrightarrow> attrs h' k = attrs h k))"

text \<open>The method returned.\<close>

definition is_ok :: "outcome \<Rightarrow> bool" where
  "is_ok r = (case r of Inl eh \<Rightarrow> False | Inr h \<Rightarrow> True)"

text \<open>A river marker with no turn marker before it.\<close>

definition skipped_turn_hand :: hand where
  "skipped_turn_hand = hand_of
     [sample_header,
      ''Seat 1: Bob (1,500)'',
      ''Seat 3: Alice (980)'',
      ''The button is in seat #1'',
      [], ''HOLE CARDS'',
      ''Dealt to Alice [Ah Kd]'',
      ''Bob calls 10'',
      [], ''FLOP'', ''[8h 4h Tc] (Total Pot: 40, 2 Players)'',
      ''Bob checks'',
      [], ''RIVER'', ''[2c] (Total Pot: 40, 2 Players)'',
      ''Bob bets 20'',
      [], ''SUMMARY'',
      ''Total pot 40'']"

text \<open>The groups of a pattern.\<close>

primrec names :: "rx \<Rightarrow> string set" where
  "names (Str lit) = {}"
| "names (One p) = {}"
| "names (Opt p) = {}"
| "names (Star p) = {}"
| "names (StarLazy p) = {}"
| "names (Group name r) = insert name (names r)"
| "names (Then r1 r2) = names r1 \<union> names r2"
| "names (Alt r1 r2) = names r1 \<union> names r2"
| "names Eol = {}"

text \<open>The sample header with the limit token \<^verbatim>\<open>PL\<close>.\<close>

definition pot_limit_header :: string where
  "pot_limit_header =
     ''Full Tilt Poker Game #1: T (2), Table 3 - PL Hold'em - 10/20 - x [21:05:00 ET - 2013/07/01]''"

text \<open>The attributes assigned after the header: by the seat, hole-card, preflop and
  street extractors.\<close>

definition body_keys :: "string set" where
  "body_keys =
     {''max_players'', ''players'', ''button_seat'', ''button'', ''hero'', ''hero_seat'',
      ''hero_hole_cards'', ''preflop_actions''}
     \<union> street_keys ''flop'' \<union> street_keys ''turn'' \<union> street_keys ''river''"

text \<open>The seat block: the lines the loop of \<^verbatim>\<open>_parse_seats\<close> consumes, and the seat
  numbers they declare, in the order of the lines.\<close>

definition is_seat_line :: "string \<Rightarrow> bool" where
  "is_seat_line l = (re_match seat_pattern l \<noteq> None)"

definition seat_of :: "string \<Rightarrow> int" where
  "seat_of l =
     (case re_match seat_pattern l of
        None \<Rightarrow> 0
      | Some m \<Rightarrow> (case py_int (group m ''1'') of Inl e \<Rightarrow> 0 | Inr n \<Rightarrow> n))"

definition declared :: "string list \<Rightarrow> int list" where
  "declared ls = map seat_of (takeWhile is_seat_line ls)"

definition declared_seats :: "hand \<Rightarrow> int list" where
  "declared_seats h = declared (drop 1 (splitted h))"

text \<open>Seat lines for seats 5, 1 and 3, in this order.\<close>

definition unordered_seats_hand :: hand where
  "unordered_seats_hand = hand_of
     [''H'',
      ''Seat 5: Cy (520)'',
      ''Seat 1: Bob (1,500)'',
      ''Seat 3: Alice (980)'',
      ''The button is in seat #1'',
      [], ''HOLE CARDS'',
      ''Dealt to Alice [Ah Kd]'',
      [], ''SUMMARY'', ''Total pot 0'']"

text \<open>The text of the hand with a river and no turn.\<close>

definition skipped_turn_text :: string where
  "skipped_turn_text =
     sample_header @ ''\<newline>'' @
     ''Seat 1: Bob (1,500)\<newline>'' @
     ''Seat 3: Alice (980)\<newline>'' @
     ''The button is in seat #1\<newline>'' @
     ''*** HOLE CARDS ***\<newline>'' @
     ''Dealt to Alice [Ah Kd]\<newline>'' @
     ''Bob calls 10\<newline>'' @
     ''*** FLOP *** [8h 4h Tc] (Total Pot: 40, 2 Players)\<newline>'' @
     ''Bob checks\<newline>'' @
     ''*** RIVER *** [2c] (Total Pot: 40, 2 Players)\<newline>'' @
     ''Bob bets 20\<newline>'' @
     ''*** SUMMARY ***\<newline>'' @
     ''Total pot 40''"

text \<open>The text of the hand with seat lines 5, 1, 3.\<close>

definition unordered_seats_text :: string where
  "unordered_seats_text =
     ''H\<newline>'' @
     ''Seat 5: Cy (520)\<newline>'' @
     ''Seat 1: Bob (1,500)\<newline>'' @
     ''Seat 3: Alice (980)\<newline>'' @
     ''The button is in seat #1\<newline>'' @
     ''*** HOLE CARDS ***\<newline>'' @
     ''Dealt to Alice [Ah Kd]\<newline>'' @
     ''*** SUMMARY ***\<newline>'' @
     ''Total pot 0''"

section \<open>The sample texts and their fragments\<close>


lemma hand_of_fragments: "re_split split_pattern raw = splitted (hand_of sp) \<Longrightarrow> init raw = hand_of sp"
  by (simp add: init_def hand_of_def)

lemma sample_text_split: "re_split split_pattern sample_text = splitted sample_hand"
  by code_simp

lemma init_sample_text: "init sample_text = sample_hand"
  unfolding sample_hand_def using sample_text_split
  by (intro hand_of_fragments) (simp only: sample_hand_def)

lemma skipped_turn_text_split: "re_split split_pattern skipped_turn_text = splitted skipped_turn_hand"
  by code_simp

lemma init_skipped_turn_text: "init skipped_turn_text = skipped_turn_hand"
  unfolding skipped_turn_hand_def using skipped_turn_text_split
  by (intro hand_of_fragments) (simp only: skipped_turn_hand_def)

lemma unordered_seats_text_split:
  "re_split split_pattern unordered_seats_text = splitted unordered_seats_hand"
  by code_simp

lemma init_unordered_seats_text: "init unordered_seats_text = unordered_seats_hand"
  unfolding unordered_seats_hand_def using unordered_seats_text_split
  by (intro hand_of_fragments) (simp only: unordered_seats_hand_def)

section \<open>Lists and indices\<close>

lemma first_index_None: "first_index x xs = None \<longleftrightarrow> x \<notin> set xs"
  by (induction xs) auto

lemma first_index_Some: "first_index x xs = Some i \<Longrightarrow> i < length xs \<and> xs ! i = x"
  by (induction xs arbitrary: i) (auto split: if_splits)

lemma first_index_here: "i < length xs \<Longrightarrow> xs ! i = x \<Longrightarrow> \<exists>j\<le>i. first_index x xs = Some j"
proof (induction xs arbitrary: i)
  case Nil
  then show ?case by simp
next
  case (Cons y ys)
  show ?case
  proof (cases "y = x")
    case True
    then show ?thesis by simp
  next
    case False
    with Cons.prems obtain k where k: "i = Suc k" by (cases i) auto
    with Cons.prems have "k < length ys" "ys ! k = x" by auto
    from Cons.IH [OF this] obtain j where "j \<le> k" "first_index x ys = Some j" by blast
    with False k show ?thesis by auto
  qed
qed

lemma index_absent:
  assumes "x \<notin> set xs"
  shows "index xs x = Inl ValueError"
proof -
  from assms have "first_index x xs = None"
    by (simp add: first_index_None)
  then show ?thesis
    by (simp add: index_def)
qed

lemma item_nat: "i < length xs \<Longrightarrow> item xs (int i) = Inr (xs ! i)"
  by (simp add: item_def position_def)

section \<open>What a method leaves alone\<close>

lemma splitted_setattr [simp]: "splitted (setattr h k v) = splitted h"
  by (simp add: setattr_def)

lemma sections_setattr [simp]: "sections (setattr h k v) = sections h"
  by (simp add: setattr_def)

lemma attrs_setattr [simp]: "attrs (setattr h k v) = (attrs h)(k \<mapsto> v)"
  by (simp add: setattr_def)

lemma street_absent_attrs:
  "attrs (street_absent street h) street = Some PNone"
  "attrs (street_absent street h) (street @ ''_actions'') = Some PNone"
  "attrs (street_absent street h) (street @ ''_pot'') = Some PNone"
  "attrs (street_absent street h) (street @ ''_num_players'') = Some PNone"
  by (simp_all add: street_absent_def)

lemma street_absent_frame:
  "splitted (street_absent street h) = splitted h"
  "sections (street_absent street h) = sections h"
  by (simp_all add: street_absent_def)

section \<open>Streets\<close>

text \<open>
  C5. A street whose uppercase marker is not among the fragments does not make the
  parse fail: \<^verbatim>\<open>_parse_street\<close> returns normally, the street's cards, actions, pot and
  player count are all \<^verbatim>\<open>None\<close>, and the fragments are as before for the statements
  that follow.
\<close>

theorem street_not_reached:
  assumes "upper street \<notin> set (splitted h)"
  shows "\<exists>h'. parse_street street h = Inr h'
           \<and> attrs h' street = Some PNone
           \<and> attrs h' (street @ ''_actions'') = Some PNone
           \<and> attrs h' (street @ ''_pot'') = Some PNone
           \<and> attrs h' (street @ ''_num_players'') = Some PNone
           \<and> splitted h' = splitted h \<and> sections h' = sections h"
proof -
  from assms have "street_body street h = Inl (ValueError, h)"
    by (simp add: street_body_def attempt_def index_absent)
  then have "parse_street street h = Inr (street_absent street h)"
    by (simp add: parse_street_def)
  then show ?thesis
    by (simp add: street_absent_attrs street_absent_frame)
qed

theorem street_not_reached_witness:
  "upper ''river'' \<notin> set (splitted sample_hand)
   \<and> (\<exists>h'. parse_street ''river'' sample_hand = Inr h'
         \<and> attrs h' ''river'' = Some PNone
         \<and> attrs h' ''river_actions'' = Some PNone
         \<and> attrs h' ''river_pot'' = Some PNone
         \<and> attrs h' ''river_num_players'' = Some PNone)"
proof -
  have absent: "upper ''river'' \<notin> set (splitted sample_hand)"
    by code_simp
  from street_not_reached [OF absent] show ?thesis
    using absent by auto
qed

text \<open>
  C4. A street whose marker is among the fragments and whose next fragment does not
  match the board-line pattern makes \<^verbatim>\<open>_parse_street\<close> raise (the \<^verbatim>\<open>AttributeError\<close> of
  \<^verbatim>\<open>match.group\<close> on \<^verbatim>\<open>None\<close>, which the handler for \<^verbatim>\<open>ValueError\<close> does not catch);
  the street is not recorded as absent. \<open>i\<close> is the position of the first marker, the one
  \<^verbatim>\<open>index\<close> finds.
\<close>

theorem malformed_board_line:
  assumes "first_index (upper street) (splitted h) = Some i"
    and "Suc i < length (splitted h)"
    and "re_match street_pattern (splitted h ! Suc i) = None"
  shows "parse_street street h = Inl (AttributeError, h)"
proof -
  have "index (splitted h) (upper street) = Inr i"
    using assms(1) by (simp add: index_def)
  moreover have "parse_boardline (Suc i) street h = Inl (AttributeError, h)"
    using assms(2,3) item_nat [of "Suc i" "splitted h"]
    by (simp add: parse_boardline_def attempt_def)
  ultimately have "street_body street h = Inl (AttributeError, h)"
    by (simp add: street_body_def attempt_def and_then_def)
  then show ?thesis
    by (simp add: parse_street_def)
qed

theorem malformed_board_line_witness:
  "first_index (upper ''flop'') (splitted malformed_flop_hand) = Some 2
   \<and> Suc 2 < length (splitted malformed_flop_hand)
   \<and> re_match street_pattern (splitted malformed_flop_hand ! Suc 2) = None
   \<and> parse_street ''flop'' malformed_flop_hand = Inl (AttributeError, malformed_flop_hand)"
proof -
  have a: "first_index (upper ''flop'') (splitted malformed_flop_hand) = Some 2"
    by code_simp
  have b: "Suc 2 < length (splitted malformed_flop_hand)"
    by code_simp
  have c: "re_match street_pattern (splitted malformed_flop_hand ! Suc 2) = None"
    by code_simp
  from malformed_board_line [OF a b c] a b c show ?thesis
    by simp
qed

section \<open>Seats\<close>

lemma seats_loop_error: "seats_loop ls ps sn = Inl e \<Longrightarrow> e = ValueError \<or> e = IndexError"
proof (induction ls arbitrary: ps sn)
  case Nil
  then show ?case by simp
next
  case (Cons l ls)
  then show ?case
    by (auto simp: py_int_def setitem_def Let_def split: option.splits sum.splits prod.splits if_splits)
qed

lemma seats_loop_assigned: "seats_loop ls ps (Some n) = Inr (ps', sn') \<Longrightarrow> sn' \<noteq> None"
  by (induction ls arbitrary: ps n) (auto split: option.splits sum.splits)

lemma seats_loop_first:
  "re_match seat_pattern l \<noteq> None \<Longrightarrow> seats_loop (l # ls) ps sn = Inr (ps', sn') \<Longrightarrow> sn' \<noteq> None"
  by (auto split: option.splits sum.splits dest: seats_loop_assigned)

lemma parse_seats_unbound:
  assumes "parse_seats h = Inl (UnboundLocalError, h')"
  shows "\<exists>ps. seats_loop (drop 1 (splitted h)) empty_seats None = Inr (ps, None)"
proof (cases "seats_loop (drop 1 (splitted h)) empty_seats None")
  case (Inl e)
  with assms seats_loop_error [OF Inl] show ?thesis
    by (auto simp: parse_seats_def attempt_def)
next
  case (Inr r)
  obtain ps sn where r: "r = (ps, sn)" by (cases r)
  show ?thesis
  proof (cases sn)
    case None
    with Inr r show ?thesis by simp
  next
    case (Some n)
    with assms Inr r have False
      by (auto simp: parse_seats_def attempt_def item_def py_int_def Let_def
               split: option.splits sum.splits prod.splits if_splits)
    then show ?thesis ..
  qed
qed

text \<open>
  C10. \<^verbatim>\<open>_parse_seats\<close> reads the local variable \<^verbatim>\<open>seat_number\<close> after the loop. It fails
  with \<^verbatim>\<open>UnboundLocalError\<close>, leaving the object as it was, exactly when no seat line
  follows the first fragment: the rest of the fragments is empty or its first line does
  not match the seat pattern. So seat extraction returns only when the seat block is
  not empty.
\<close>

theorem seat_block_required:
  "(parse_seats h = Inl (UnboundLocalError, h))
     = (case drop 1 (splitted h) of [] \<Rightarrow> True
        | line # rest \<Rightarrow> re_match seat_pattern line = None)"
proof (cases "drop 1 (splitted h)")
  case Nil
  then show ?thesis
    by (simp add: parse_seats_def attempt_def)
next
  case (Cons line rest)
  show ?thesis
  proof (cases "re_match seat_pattern line")
    case None
    with Cons show ?thesis
      by (simp add: parse_seats_def attempt_def)
  next
    case (Some m)
    have "parse_seats h \<noteq> Inl (UnboundLocalError, h)"
    proof
      assume "parse_seats h = Inl (UnboundLocalError, h)"
      from parse_seats_unbound [OF this] obtain ps
        where "seats_loop (line # rest) empty_seats None = Inr (ps, None)"
        using Cons by auto
      with seats_loop_first [of line rest empty_seats None ps None] Some
      show False by simp
    qed
    with Cons Some show ?thesis by simp
  qed
qed

theorem seat_block_required_witness:
  "parse_seats no_seats_hand = Inl (UnboundLocalError, no_seats_hand)
   \<and> parse_seats sample_hand \<noteq> Inl (UnboundLocalError, sample_hand)"
proof -
  have a: "(case drop 1 (splitted no_seats_hand) of [] \<Rightarrow> True
            | line # rest \<Rightarrow> re_match seat_pattern line = None)"
    by code_simp
  have b: "\<not> (case drop 1 (splitted sample_hand) of [] \<Rightarrow> True
            | line # rest \<Rightarrow> re_match seat_pattern line = None)"
    by code_simp
  from a b show ?thesis
    using seat_block_required [of no_seats_hand] seat_block_required [of sample_hand]
    by simp
qed

section \<open>What the streets leave alone\<close>

lemma untouched_refl: "untouched ks h h"
  by (simp add: untouched_def)

lemma untouched_trans: "untouched ks h h1 \<Longrightarrow> untouched ks h1 h2 \<Longrightarrow> untouched ks h h2"
  by (simp add: untouched_def)

lemma untouched_mono: "untouched ks h h' \<Longrightarrow> ks \<subseteq> ks' \<Longrightarrow> untouched ks' h h'"
  by (auto simp: untouched_def)

lemma untouched_setattr: "k \<in> ks \<Longrightarrow> untouched ks h (setattr h k v)"
  by (auto simp: untouched_def)

lemma untouched_setattr_after: "untouched ks h h1 \<Longrightarrow> k \<in> ks \<Longrightarrow> untouched ks h (setattr h1 k v)"
  by (auto simp: untouched_def)

lemma parse_boardline_ok:
  assumes "parse_boardline start street h = Inr h1"
  shows "\<exists>cards pot n. h1 = setattr (setattr (setattr h street (PTuple cards))
            (street @ ''_pot'') (PDecimal pot)) (street @ ''_num_players'') (PInt n)"
  using assms
  by (auto simp: parse_boardline_def attempt_def Let_def split: sum.splits option.splits)

lemma parse_boardline_untouched:
  assumes "parse_boardline start street h = Inr h1 \<or> parse_boardline start street h = Inl (e, h1)"
  shows "untouched (street_keys street) h h1"
  using assms
  by (auto simp: parse_boardline_def attempt_def Let_def untouched_def street_keys_def
           split: sum.splits option.splits)

lemma street_body_untouched:
  assumes "street_body street h = Inr h1 \<or> street_body street h = Inl (e, h1)"
  shows "untouched (street_keys street) h h1"
proof (cases "index (splitted h) (upper street)")
  case (Inl e')
  with assms show ?thesis
    by (auto simp: street_body_def attempt_def untouched_refl)
next
  case (Inr i)
  show ?thesis
  proof (cases "parse_boardline (Suc i) street h")
    case (Inl eh)
    obtain e' h' where eh: "eh = (e', h')" by (cases eh)
    with Inl Inr assms have "h1 = h'"
      by (auto simp: street_body_def attempt_def and_then_def)
    with Inl eh show ?thesis
      using parse_boardline_untouched [of "Suc i" street h h' e'] by simp
  next
    case board: (Inr h2)
    then have u: "untouched (street_keys street) h h2"
      using parse_boardline_untouched [of "Suc i" street h h2] by simp
    from assms Inr board
    have "h1 = h2 \<or> (\<exists>v. h1 = setattr h2 (street @ ''_actions'') v)"
      by (auto simp: street_body_def attempt_def and_then_def Let_def split: sum.splits)
    then show ?thesis
    proof
      assume "h1 = h2"
      with u show ?thesis by simp
    next
      assume "\<exists>v. h1 = setattr h2 (street @ ''_actions'') v"
      then obtain v where "h1 = setattr h2 (street @ ''_actions'') v" ..
      with u show ?thesis
        by (simp add: untouched_setattr_after street_keys_def)
    qed
  qed
qed

lemma street_absent_untouched: "untouched (street_keys street) h (street_absent street h)"
  by (auto simp: untouched_def street_absent_def street_keys_def)

lemma parse_street_untouched:
  assumes "parse_street street h = Inr h'"
  shows "untouched (street_keys street) h h'"
proof (cases "street_body street h")
  case (Inl eh)
  obtain e h1 where eh: "eh = (e, h1)" by (cases eh)
  with Inl assms have h': "h' = street_absent street h1"
    by (auto simp: parse_street_def split: if_splits)
  from Inl eh have "untouched (street_keys street) h h1"
    using street_body_untouched [of street h h1 e] by simp
  with h' show ?thesis
    using street_absent_untouched [of street h1] by (blast intro: untouched_trans)
next
  case (Inr h1)
  with assms have "h' = h1" by (simp add: parse_street_def)
  with Inr show ?thesis
    using street_body_untouched [of street h h'] by simp
qed

lemma parse_street_absent:
  assumes "upper street \<notin> set (splitted h)"
  shows "parse_street street h = Inr (street_absent street h)"
proof -
  from assms have "street_body street h = Inl (ValueError, h)"
    by (simp add: street_body_def attempt_def index_absent)
  then show ?thesis
    by (simp add: parse_street_def)
qed

lemma parse_header_splitted: "parse_header E h = Inr h' \<Longrightarrow> splitted h' = splitted h"
  by (auto simp: parse_header_def attempt_def Let_def split: sum.splits option.splits)

lemma parse_seats_splitted: "parse_seats h = Inr h' \<Longrightarrow> splitted h' = splitted h"
  by (auto simp: parse_seats_def attempt_def Let_def split: sum.splits option.splits prod.splits)

lemma parse_hole_cards_splitted: "parse_hole_cards h = Inr h' \<Longrightarrow> splitted h' = splitted h"
  by (auto simp: parse_hole_cards_def attempt_def Let_def
           split: sum.splits option.splits pyval.splits)

lemma parse_preflop_splitted: "parse_preflop h = Inr h' \<Longrightarrow> splitted h' = splitted h"
  by (auto simp: parse_preflop_def attempt_def split: sum.splits)

lemma and_then_ok: "and_then r k = Inr h' \<Longrightarrow> \<exists>h1. r = Inr h1 \<and> k h1 = Inr h'"
  by (cases r) (simp_all add: and_then_def)

lemma parse_steps:
  assumes "parse E h = Inr h'"
  obtains h4 h5 h6 where "splitted h4 = splitted h"
    and "parse_street ''flop'' h4 = Inr h5"
    and "parse_street ''turn'' h5 = Inr h6"
    and "parse_street ''river'' h6 = Inr h'"
proof -
  from assms obtain h1 where 1: "PokerHand_parse E h = Inr h1"
    and r1: "and_then (parse_seats h1) (\<lambda>h.
     and_then (parse_hole_cards h) (\<lambda>h.
     and_then (parse_preflop h) (\<lambda>h.
     and_then (parse_street ''flop'' h) (\<lambda>h.
     and_then (parse_street ''turn'' h) (\<lambda>h.
       parse_street ''river'' h))))) = Inr h'"
    unfolding parse_def by (blast dest: and_then_ok)
  from r1 obtain h2 where 2: "parse_seats h1 = Inr h2"
    and r2: "and_then (parse_hole_cards h2) (\<lambda>h.
     and_then (parse_preflop h) (\<lambda>h.
     and_then (parse_street ''flop'' h) (\<lambda>h.
     and_then (parse_street ''turn'' h) (\<lambda>h.
       parse_street ''river'' h)))) = Inr h'"
    by (blast dest: and_then_ok)
  from r2 obtain h3 where 3: "parse_hole_cards h2 = Inr h3"
    and r3: "and_then (parse_preflop h3) (\<lambda>h.
     and_then (parse_street ''flop'' h) (\<lambda>h.
     and_then (parse_street ''turn'' h) (\<lambda>h.
       parse_street ''river'' h))) = Inr h'"
    by (blast dest: and_then_ok)
  from r3 obtain h4 where 4: "parse_preflop h3 = Inr h4"
    and r4: "and_then (parse_street ''flop'' h4) (\<lambda>h.
     and_then (parse_street ''turn'' h) (\<lambda>h.
       parse_street ''river'' h)) = Inr h'"
    by (blast dest: and_then_ok)
  from r4 obtain h5 where 5: "parse_street ''flop'' h4 = Inr h5"
    and r5: "and_then (parse_street ''turn'' h5) (\<lambda>h. parse_street ''river'' h) = Inr h'"
    by (blast dest: and_then_ok)
  from r5 obtain h6 where 6: "parse_street ''turn'' h5 = Inr h6"
    and 7: "parse_street ''river'' h6 = Inr h'"
    by (blast dest: and_then_ok)
  from 1 2 3 4 have "splitted h4 = splitted h"
    by (simp add: PokerHand_parse_def parse_header_splitted parse_seats_splitted
          parse_hole_cards_splitted parse_preflop_splitted)
  with 5 6 7 that show thesis by blast
qed

text \<open>
  C1 (as amended). Each street is looked up by its own marker, independently of the
  others. After a parse that returns, a street (flop, turn or river) whose uppercase
  marker is not among the fragments has its cards, actions, pot and player count all
  \<^verbatim>\<open>None\<close>; in particular a hand text with no TURN marker yields an absent turn.
  Nothing ties a later street to an earlier one.
\<close>

theorem absent_marker_absent_street:
  assumes "parse E h = Inr h'"
    and "street = ''flop'' \<or> street = ''turn'' \<or> street = ''river''"
    and "upper street \<notin> set (splitted h)"
  shows "attrs h' street = Some PNone
       \<and> attrs h' (street @ ''_actions'') = Some PNone
       \<and> attrs h' (street @ ''_pot'') = Some PNone
       \<and> attrs h' (street @ ''_num_players'') = Some PNone"
proof -
  from assms(1) obtain h4 h5 h6 where s4: "splitted h4 = splitted h"
    and f: "parse_street ''flop'' h4 = Inr h5"
    and t: "parse_street ''turn'' h5 = Inr h6"
    and r: "parse_street ''river'' h6 = Inr h'"
    by (rule parse_steps)
  note uf = parse_street_untouched [OF f]
  note ut = parse_street_untouched [OF t]
  note ur = parse_street_untouched [OF r]
  from uf ut have s6: "splitted h5 = splitted h" "splitted h6 = splitted h"
    using s4 by (simp_all add: untouched_def)
  from assms(2) consider "street = ''flop''" | "street = ''turn''" | "street = ''river''"
    by blast
  then show ?thesis
  proof cases
    case 1
    with assms(3) s4 have "h5 = street_absent ''flop'' h4"
      using f parse_street_absent [of "''flop''" h4] by simp
    then have "attrs h5 ''flop'' = Some PNone" "attrs h5 ''flop_actions'' = Some PNone"
      "attrs h5 ''flop_pot'' = Some PNone" "attrs h5 ''flop_num_players'' = Some PNone"
      by (simp_all add: street_absent_def)
    with ut ur 1 show ?thesis
      by (simp add: untouched_def street_keys_def)
  next
    case 2
    with assms(3) s6 have "h6 = street_absent ''turn'' h5"
      using t parse_street_absent [of "''turn''" h5] by simp
    then have "attrs h6 ''turn'' = Some PNone" "attrs h6 ''turn_actions'' = Some PNone"
      "attrs h6 ''turn_pot'' = Some PNone" "attrs h6 ''turn_num_players'' = Some PNone"
      by (simp_all add: street_absent_def)
    with ur 2 show ?thesis
      by (simp add: untouched_def street_keys_def)
  next
    case 3
    with assms(3) s6 have "h' = street_absent ''river'' h6"
      using r parse_street_absent [of "''river''" h6] by simp
    with 3 show ?thesis
      by (simp add: street_absent_def)
  qed
qed

lemma sample_parse_ok: "is_ok (parse sample_env sample_hand)"
  by code_simp

theorem absent_marker_absent_street_witness:
  "upper ''river'' \<notin> set (splitted (init sample_text))
   \<and> attr_of (FullTiltHand sample_env sample_text) ''river'' = Some PNone
   \<and> attr_of (FullTiltHand sample_env sample_text) ''river_actions'' = Some PNone
   \<and> attr_of (FullTiltHand sample_env sample_text) ''river_pot'' = Some PNone
   \<and> attr_of (FullTiltHand sample_env sample_text) ''river_num_players'' = Some PNone"
proof -
  have absent: "upper ''river'' \<notin> set (splitted (init sample_text))"
    unfolding init_sample_text by code_simp
  from sample_parse_ok obtain h' where ok: "parse sample_env (init sample_text) = Inr h'"
    by (auto simp: is_ok_def init_sample_text split: sum.splits)
  have street: "''river'' = ''flop'' \<or> ''river'' = ''turn'' \<or> ''river'' = ''river''"
    by simp
  from absent_marker_absent_street [OF ok street absent] ok absent
  show ?thesis
    by (simp add: attr_of_def FullTiltHand_def)
qed

lemma skipped_turn_parse:
  "upper ''turn'' \<notin> set (splitted skipped_turn_hand)
   \<and> attr_of (parse sample_env skipped_turn_hand) ''turn'' = Some PNone
   \<and> attr_of (parse sample_env skipped_turn_hand) ''river'' = Some (PTuple [''2c''])
   \<and> attr_of (parse sample_env skipped_turn_hand) ''river_actions''
       = Some (PTuple [''Bob bets 20''])"
  by code_simp

text \<open>
  C1 as stated fails: with a RIVER marker and no TURN marker the turn is absent and the
  river is present.
\<close>

theorem later_street_without_earlier:
  "upper ''turn'' \<notin> set (splitted (init skipped_turn_text))
   \<and> attr_of (FullTiltHand sample_env skipped_turn_text) ''turn'' = Some PNone
   \<and> attr_of (FullTiltHand sample_env skipped_turn_text) ''river'' = Some (PTuple [''2c''])
   \<and> attr_of (FullTiltHand sample_env skipped_turn_text) ''river_actions''
       = Some (PTuple [''Bob bets 20''])"
  using skipped_turn_parse by (simp add: FullTiltHand_def init_skipped_turn_text)

section \<open>Streets without actions\<close>

text \<open>
  C2 (as amended). When a street's marker is found, its board line parses and no action
  line stands between the board line and the next section boundary, the street's actions
  are stored as \<^verbatim>\<open>None\<close>: the value also stored for a street that was not reached. What
  tells the two apart is the street's cards (and pot and player count), a tuple here and
  \<^verbatim>\<open>None\<close> for a street not reached.
\<close>

theorem empty_actions_are_None:
  assumes "first_index (upper street) (splitted h) = Some i"
    and "parse_boardline (Suc i) street h = Inr h1"
    and "index_from (splitted h) [] (i + 2) = Inr stop"
    and "slice (splitted h) (i + 2) stop = []"
  shows "parse_street street h = Inr (setattr h1 (street @ ''_actions'') PNone)
       \<and> attr_of (parse_street street h) (street @ ''_actions'') = Some PNone
       \<and> attrs (street_absent street h) (street @ ''_actions'') = Some PNone
       \<and> (\<exists>cards. attr_of (parse_street street h) street = Some (PTuple cards))
       \<and> attrs (street_absent street h) street = Some PNone"
proof -
  from parse_boardline_ok [OF assms(2)] obtain cards pot n
    where h1: "h1 = setattr (setattr (setattr h street (PTuple cards))
            (street @ ''_pot'') (PDecimal pot)) (street @ ''_num_players'') (PInt n)"
    by blast
  then have s1: "splitted h1 = splitted h"
    by simp
  have "index (splitted h) (upper street) = Inr i"
    using assms(1) by (simp add: index_def)
  with assms(2,3,4) s1 have "street_body street h = Inr (setattr h1 (street @ ''_actions'') PNone)"
    by (simp add: street_body_def attempt_def and_then_def)
  then have res: "parse_street street h = Inr (setattr h1 (street @ ''_actions'') PNone)"
    by (simp add: parse_street_def)
  have "attrs (setattr h1 (street @ ''_actions'') PNone) street = Some (PTuple cards)"
    using h1 by simp
  with res show ?thesis
    by (simp add: attr_of_def street_absent_attrs)
qed

theorem empty_actions_are_None_witness:
  "first_index (upper ''turn'') (splitted sample_hand) = Some 16
   \<and> is_ok (parse_boardline (Suc 16) ''turn'' sample_hand)
   \<and> index_from (splitted sample_hand) [] (16 + 2) = Inr 18
   \<and> slice (splitted sample_hand) (16 + 2) 18 = []
   \<and> attr_of (parse_street ''turn'' sample_hand) ''turn_actions'' = Some PNone"
proof -
  have a: "first_index (upper ''turn'') (splitted sample_hand) = Some 16"
    by code_simp
  have b: "is_ok (parse_boardline (Suc 16) ''turn'' sample_hand)"
    by code_simp
  then obtain h1 where b': "parse_boardline (Suc 16) ''turn'' sample_hand = Inr h1"
    by (auto simp: is_ok_def split: sum.splits)
  have c: "index_from (splitted sample_hand) [] (16 + 2) = Inr 18"
    by code_simp
  have d: "slice (splitted sample_hand) (16 + 2) 18 = []"
    by code_simp
  from empty_actions_are_None [OF a b' c d] a b c d show ?thesis
    by (simp add: attr_of_def)
qed

text \<open>
  C2 as stated fails: the turn of the sample hand is found, its board line parses and it
  has no action line; its actions are stored as \<^verbatim>\<open>None\<close>, the very value stored for the
  river, which was not reached.
\<close>

theorem empty_actions_not_distinct:
  "first_index (upper ''turn'') (splitted sample_hand) = Some 16
   \<and> attr_of (parse_street ''turn'' sample_hand) ''turn'' = Some (PTuple [''Kc''])
   \<and> upper ''river'' \<notin> set (splitted sample_hand)
   \<and> attr_of (parse_street ''turn'' sample_hand) ''turn_actions'' = Some PNone
   \<and> attr_of (parse_street ''river'' sample_hand) ''river_actions'' = Some PNone"
  by code_simp

section \<open>The matcher\<close>

text \<open>A state the matcher reaches is a suffix of the text at the position it records,
  and a pattern changes the spans of its own groups only.\<close>

lemma star_greedy_drop:
  "(n', s') \<in> set (star_greedy p n s acc) \<Longrightarrow>
     (n', s') \<in> set acc \<or> (n \<le> n' \<and> s' = drop (n' - n) s)"
proof (induction s arbitrary: n acc)
  case Nil
  then show ?case by auto
next
  case (Cons c cs)
  show ?case
  proof (cases "cset_has p c")
    case False
    with Cons.prems show ?thesis by auto
  next
    case True
    with Cons.prems have "(n', s') \<in> set (star_greedy p (Suc n) cs ((n, c # cs) # acc))"
      by simp
    from Cons.IH [OF this] show ?thesis
    proof
      assume "(n', s') \<in> set ((n, c # cs) # acc)"
      then show ?thesis by auto
    next
      assume a: "Suc n \<le> n' \<and> s' = drop (n' - Suc n) cs"
      then have "n' - n = Suc (n' - Suc n)" by arith
      with a show ?thesis by simp
    qed
  qed
qed

lemma star_lazy_drop:
  "(n', s') \<in> set (star_lazy p n s) \<Longrightarrow> n \<le> n' \<and> s' = drop (n' - n) s"
proof (induction s arbitrary: n)
  case Nil
  then show ?case by auto
next
  case (Cons c cs)
  from Cons.prems have "(n', s') = (n, c # cs) \<or> (n', s') \<in> set (star_lazy p (Suc n) cs)"
    by (auto split: if_splits)
  then show ?case
  proof
    assume "(n', s') = (n, c # cs)"
    then show ?thesis by simp
  next
    assume "(n', s') \<in> set (star_lazy p (Suc n) cs)"
    from Cons.IH [OF this] have a: "Suc n \<le> n' \<and> s' = drop (n' - Suc n) cs" .
    then have "n' - n = Suc (n' - Suc n)" by arith
    with a show ?thesis by simp
  qed
qed

lemma rx_run_drop:
  "(n', s', g') \<in> set (rx_run r (n, s, g)) \<Longrightarrow> n \<le> n' \<and> s' = drop (n' - n) s"
proof (induction r arbitrary: n s g n' s' g')
  case (Str lit)
  then show ?case by (auto split: if_splits)
next
  case (One p)
  then show ?case by (auto split: list.splits if_splits)
next
  case (Opt p)
  then show ?case by (auto split: list.splits if_splits)
next
  case (Star p)
  then show ?case by (auto dest: star_greedy_drop)
next
  case (StarLazy p)
  then show ?case by (auto dest: star_lazy_drop)
next
  case (Group name r)
  then show ?case by auto
next
  case (Then r1 r2)
  from Then.prems obtain n1 s1 g1 where 1: "(n1, s1, g1) \<in> set (rx_run r1 (n, s, g))"
    and 2: "(n', s', g') \<in> set (rx_run r2 (n1, s1, g1))"
    by auto
  from Then.IH(1) [OF 1] Then.IH(2) [OF 2] show ?case
    by (auto simp: add.commute)
next
  case (Alt r1 r2)
  then show ?case by auto
next
  case Eol
  then show ?case by (auto split: if_splits)
qed

lemma rx_run_keeps:
  "(n', s', g') \<in> set (rx_run r (n, s, g)) \<Longrightarrow> k \<notin> names r \<Longrightarrow> g' k = g k"
proof (induction r arbitrary: n s g n' s' g')
  case (Then r1 r2)
  from Then.prems obtain n1 s1 g1 where 1: "(n1, s1, g1) \<in> set (rx_run r1 (n, s, g))"
    and 2: "(n', s', g') \<in> set (rx_run r2 (n1, s1, g1))"
    by auto
  from Then.IH(1) [OF 1] Then.IH(2) [OF 2] Then.prems(2) show ?case
    by simp
qed (auto split: list.splits if_splits)

lemma names_seq: "names (seq rs) = (\<Union>r\<in>set rs. names r)"
  by (induction rs) (simp_all add: seq_def)

lemma rx_run_seq_append:
  "st' \<in> set (rx_run (seq (rs @ rs')) st) \<longleftrightarrow>
     (\<exists>mid \<in> set (rx_run (seq rs) st). st' \<in> set (rx_run (seq rs') mid))"
proof (induction rs arbitrary: st)
  case Nil
  obtain n s g where "st = (n, s, g)" by (cases st)
  then show ?case by (simp add: seq_def)
next
  case (Cons r rs)
  have "seq ((r # rs) @ rs') = Then r (seq (rs @ rs'))" "seq (r # rs) = Then r (seq rs)"
    by (simp_all add: seq_def)
  with Cons show ?case by auto
qed

lemma rx_run_seq_Cons:
  "st' \<in> set (rx_run (seq (r # rs)) st) \<longleftrightarrow>
     (\<exists>mid \<in> set (rx_run r st). st' \<in> set (rx_run (seq rs) mid))"
  by (simp add: seq_def)

lemma re_match_state:
  "re_match p s = Some m \<Longrightarrow> \<exists>n r g. (n, r, g) \<in> set (rx_run p (0, s, Map.empty)) \<and> m = (s, g)"
  by (auto simp: re_match_def split: list.splits)

lemma header_limit:
  assumes "re_match header_pattern line = Some m"
  shows "group m ''limit'' = ''NL''"
proof -
  let ?pre = "[Str ''Full Tilt Poker '',
      Str ''Game #'', Group ''ident'' (Star Digit), Str '': '',
      Group ''tournament_name'' (Star Dot), Str '' '',
      Str ''('', Group ''tournament_ident'' (Star Digit), Str ''), '',
      Str ''Table '', Group ''table_name'' (Star Digit), Str '' - '']"
  let ?post = "[Str '' '',
      Group ''game'' (Star Dot), Str '' - '',
      Group ''sb'' (Star Dot), Str ''/'', Group ''bb'' (StarLazy Dot), Str '' - '',
      Star Dot, Str '' '',
      Str ''['', Group ''date'' (Star Dot), Str '']'', Eol]"
  have shape: "header_pattern = seq (?pre @ Group ''limit'' (Str ''NL'') # ?post)"
    by (simp add: header_pattern_def)
  from re_match_state [OF assms] obtain n r g
    where fin: "(n, r, g) \<in> set (rx_run header_pattern (0, line, Map.empty))" and m: "m = (line, g)"
    by blast
  from fin have "(n, r, g) \<in> set (rx_run (seq (?pre @ Group ''limit'' (Str ''NL'') # ?post))
                               (0, line, Map.empty))"
    by (simp only: shape)
  from rx_run_seq_append [THEN iffD1, OF this] obtain st1
    where 1: "st1 \<in> set (rx_run (seq ?pre) (0, line, Map.empty))"
      and rest: "(n, r, g) \<in> set (rx_run (seq (Group ''limit'' (Str ''NL'') # ?post)) st1)"
    by blast
  from rx_run_seq_Cons [THEN iffD1, OF rest] obtain st2
    where 2: "st2 \<in> set (rx_run (Group ''limit'' (Str ''NL'')) st1)"
      and 3: "(n, r, g) \<in> set (rx_run (seq ?post) st2)"
    by blast
  obtain n1 s1 g1 where st1: "st1 = (n1, s1, g1)" by (cases st1)
  from 1 st1 have s1: "s1 = drop n1 line"
    using rx_run_drop [of n1 s1 g1 "seq ?pre" 0 line Map.empty] by simp
  from 2 st1 have nl: "take (Suc (Suc 0)) s1 = ''NL''"
    and st2: "st2 = (Suc (Suc n1), drop (Suc (Suc 0)) s1, g1(''limit'' \<mapsto> (n1, Suc (Suc n1))))"
    by (auto split: if_splits)
  have "''limit'' \<notin> names (seq ?post)"
    by (simp add: names_seq)
  with 3 st2 have "g ''limit'' = Some (n1, Suc (Suc n1))"
    using rx_run_keeps [of n r g "seq ?post" "Suc (Suc n1)" "drop (Suc (Suc 0)) s1"
            "g1(''limit'' \<mapsto> (n1, Suc (Suc n1)))" "''limit''"]
    by simp
  moreover have "Suc (Suc n1) - n1 = Suc (Suc 0)"
    by arith
  ultimately show ?thesis
    using m s1 nl by (simp add: group_def numeral_2_eq_2)
qed

section \<open>The header\<close>

lemma parse_header_ok:
  assumes "parse_header E h = Inr h'"
  shows "\<exists>line m sb bb utc game.
           item (splitted h) 0 = Inr line \<and> re_match header_pattern line = Some m
         \<and> Decimal (group m ''sb'') = Inr sb \<and> Decimal (group m ''bb'') = Inr bb
         \<and> GAMES E (group m ''game'') = Some game
         \<and> attrs h' = (attrs h)
              (''game_type'' \<mapsto> PStr ''TOUR'', ''sb'' \<mapsto> PDecimal sb, ''bb'' \<mapsto> PDecimal bb,
               ''date'' \<mapsto> PDatetime utc, ''game'' \<mapsto> PStr game,
               ''limit'' \<mapsto> PStr (group m ''limit''), ''ident'' \<mapsto> PStr (group m ''ident''),
               ''tournament_ident'' \<mapsto> PStr (group m ''tournament_ident''),
               ''tournament_name'' \<mapsto> PStr (group m ''tournament_name''),
               ''table_name'' \<mapsto> PStr (group m ''table_name''),
               ''tournament_level'' \<mapsto> PNone, ''buyin'' \<mapsto> PNone, ''rake'' \<mapsto> PNone,
               ''currency'' \<mapsto> PNone, ''header_parsed'' \<mapsto> PBool True)"
  using assms
  by (auto simp: parse_header_def attempt_def Let_def split: sum.splits option.splits)







lemma sample_header_groups:
  "(case re_match header_pattern sample_header of
      None \<Rightarrow> False
    | Some m \<Rightarrow> group m ''sb'' = ''10'' \<and> group m ''bb'' = ''20'')"
  by code_simp


lemma parse_seats_untouched:
  assumes "parse_seats h = Inr h'"
  shows "untouched {''max_players'', ''players'', ''button_seat'', ''button''} h h'"
  using assms
  by (auto simp: parse_seats_def attempt_def Let_def untouched_def
           split: sum.splits option.splits prod.splits)

lemma parse_hole_cards_untouched:
  assumes "parse_hole_cards h = Inr h'"
  shows "untouched {''hero'', ''hero_seat'', ''hero_hole_cards''} h h'"
  using assms
  by (auto simp: parse_hole_cards_def attempt_def Let_def untouched_def
           split: sum.splits option.splits pyval.splits)

lemma parse_preflop_untouched:
  assumes "parse_preflop h = Inr h'"
  shows "untouched {''preflop_actions''} h h'"
  using assms
  by (auto simp: parse_preflop_def attempt_def untouched_def split: sum.splits)

lemma parse_all_steps:
  assumes "parse E h = Inr h'"
  obtains h1 h2 h3 h4 h5 h6 where "PokerHand_parse E h = Inr h1"
    and "parse_seats h1 = Inr h2"
    and "parse_hole_cards h2 = Inr h3"
    and "parse_preflop h3 = Inr h4"
    and "parse_street ''flop'' h4 = Inr h5"
    and "parse_street ''turn'' h5 = Inr h6"
    and "parse_street ''river'' h6 = Inr h'"
proof -
  from assms obtain h1 where 1: "PokerHand_parse E h = Inr h1"
    and r1: "and_then (parse_seats h1) (\<lambda>h.
     and_then (parse_hole_cards h) (\<lambda>h.
     and_then (parse_preflop h) (\<lambda>h.
     and_then (parse_street ''flop'' h) (\<lambda>h.
     and_then (parse_street ''turn'' h) (\<lambda>h.
       parse_street ''river'' h))))) = Inr h'"
    unfolding parse_def by (blast dest: and_then_ok)
  from r1 obtain h2 where 2: "parse_seats h1 = Inr h2"
    and r2: "and_then (parse_hole_cards h2) (\<lambda>h.
     and_then (parse_preflop h) (\<lambda>h.
     and_then (parse_street ''flop'' h) (\<lambda>h.
     and_then (parse_street ''turn'' h) (\<lambda>h.
       parse_street ''river'' h)))) = Inr h'"
    by (blast dest: and_then_ok)
  from r2 obtain h3 where 3: "parse_hole_cards h2 = Inr h3"
    and r3: "and_then (parse_preflop h3) (\<lambda>h.
     and_then (parse_street ''flop'' h) (\<lambda>h.
     and_then (parse_street ''turn'' h) (\<lambda>h.
       parse_street ''river'' h))) = Inr h'"
    by (blast dest: and_then_ok)
  from r3 obtain h4 where 4: "parse_preflop h3 = Inr h4"
    and r4: "and_then (parse_street ''flop'' h4) (\<lambda>h.
     and_then (parse_street ''turn'' h) (\<lambda>h.
       parse_street ''river'' h)) = Inr h'"
    by (blast dest: and_then_ok)
  from r4 obtain h5 where 5: "parse_street ''flop'' h4 = Inr h5"
    and r5: "and_then (parse_street ''turn'' h5) (\<lambda>h. parse_street ''river'' h) = Inr h'"
    by (blast dest: and_then_ok)
  from r5 obtain h6 where 6: "parse_street ''turn'' h5 = Inr h6"
    and 7: "parse_street ''river'' h6 = Inr h'"
    by (blast dest: and_then_ok)
  from 1 2 3 4 5 6 7 that show thesis by blast
qed

lemma parse_body_untouched:
  assumes "parse E h = Inr h'"
  shows "\<exists>h1. parse_header E h = Inr h1 \<and> untouched body_keys h1 h'"
proof -
  from assms obtain h1 h2 h3 h4 h5 h6 where 1: "PokerHand_parse E h = Inr h1"
    and 2: "parse_seats h1 = Inr h2"
    and 3: "parse_hole_cards h2 = Inr h3"
    and 4: "parse_preflop h3 = Inr h4"
    and 5: "parse_street ''flop'' h4 = Inr h5"
    and 6: "parse_street ''turn'' h5 = Inr h6"
    and 7: "parse_street ''river'' h6 = Inr h'"
    by (rule parse_all_steps)
  have "untouched body_keys h1 h2"
    using parse_seats_untouched [OF 2] by (rule untouched_mono) (auto simp: body_keys_def)
  moreover have "untouched body_keys h2 h3"
    using parse_hole_cards_untouched [OF 3] by (rule untouched_mono) (auto simp: body_keys_def)
  moreover have "untouched body_keys h3 h4"
    using parse_preflop_untouched [OF 4] by (rule untouched_mono) (auto simp: body_keys_def)
  moreover have "untouched body_keys h4 h5"
    using parse_street_untouched [OF 5] by (rule untouched_mono) (auto simp: body_keys_def)
  moreover have "untouched body_keys h5 h6"
    using parse_street_untouched [OF 6] by (rule untouched_mono) (auto simp: body_keys_def)
  moreover have "untouched body_keys h6 h'"
    using parse_street_untouched [OF 7] by (rule untouched_mono) (auto simp: body_keys_def)
  ultimately have "untouched body_keys h1 h'"
    by (blast intro: untouched_trans)
  with 1 show ?thesis
    by (auto simp: PokerHand_parse_def)
qed

text \<open>
  C9. After a parse that returns, the hand has limit \<^verbatim>\<open>NL\<close> and game type \<^verbatim>\<open>TOUR\<close>, and
  its tournament level, buy-in, rake and currency are \<^verbatim>\<open>None\<close>. The header pattern only
  matches with the limit group equal to \<^verbatim>\<open>NL\<close>, so no parsed hand has another limit.
\<close>

theorem parsed_hand_is_NL_tournament:
  assumes "parse E h = Inr h'"
  shows "attrs h' ''limit'' = Some (PStr ''NL'')
       \<and> attrs h' ''game_type'' = Some (PStr ''TOUR'')
       \<and> attrs h' ''tournament_level'' = Some PNone
       \<and> attrs h' ''buyin'' = Some PNone
       \<and> attrs h' ''rake'' = Some PNone
       \<and> attrs h' ''currency'' = Some PNone
       \<and> (\<forall>line m. re_match header_pattern line = Some m \<longrightarrow> group m ''limit'' = ''NL'')"
proof -
  from parse_body_untouched [OF assms] obtain h1
    where hdr: "parse_header E h = Inr h1" and u: "untouched body_keys h1 h'"
    by blast
  from parse_header_ok [OF hdr] obtain line m
    where m: "re_match header_pattern line = Some m"
      and a: "attrs h1 ''limit'' = Some (PStr (group m ''limit''))"
        "attrs h1 ''game_type'' = Some (PStr ''TOUR'')"
        "attrs h1 ''tournament_level'' = Some PNone"
        "attrs h1 ''buyin'' = Some PNone"
        "attrs h1 ''rake'' = Some PNone"
        "attrs h1 ''currency'' = Some PNone"
    by auto
  have keep: "attrs h' k = attrs h1 k" if "k \<notin> body_keys" for k
    using u that by (simp add: untouched_def)
  have "attrs h' ''limit'' = attrs h1 ''limit''"
    "attrs h' ''game_type'' = attrs h1 ''game_type''"
    "attrs h' ''tournament_level'' = attrs h1 ''tournament_level''"
    "attrs h' ''buyin'' = attrs h1 ''buyin''"
    "attrs h' ''rake'' = attrs h1 ''rake''"
    "attrs h' ''currency'' = attrs h1 ''currency''"
    by (rule keep, simp add: body_keys_def street_keys_def)+
  with a header_limit [OF m] show ?thesis
    by (simp add: header_limit)
qed

lemma pot_limit_header_no_match: "re_match header_pattern pot_limit_header = None"
  by code_simp

lemma sample_header_match: "re_match header_pattern sample_header \<noteq> None"
  using sample_header_groups by (auto split: option.splits)

theorem parsed_hand_is_NL_tournament_witness:
  "attr_of (FullTiltHand sample_env sample_text) ''limit'' = Some (PStr ''NL'')
   \<and> attr_of (FullTiltHand sample_env sample_text) ''game_type'' = Some (PStr ''TOUR'')
   \<and> attr_of (FullTiltHand sample_env sample_text) ''tournament_level'' = Some PNone
   \<and> attr_of (FullTiltHand sample_env sample_text) ''buyin'' = Some PNone
   \<and> attr_of (FullTiltHand sample_env sample_text) ''rake'' = Some PNone
   \<and> attr_of (FullTiltHand sample_env sample_text) ''currency'' = Some PNone
   \<and> (case re_match header_pattern sample_header of
         None \<Rightarrow> False | Some m \<Rightarrow> group m ''limit'' = ''NL'')
   \<and> re_match header_pattern pot_limit_header = None"
proof -
  from sample_parse_ok obtain h' where ok: "parse sample_env (init sample_text) = Inr h'"
    by (auto simp: is_ok_def init_sample_text split: sum.splits)
  from sample_header_match obtain m where m: "re_match header_pattern sample_header = Some m"
    by auto
  note facts = parsed_hand_is_NL_tournament [OF ok]
  from facts m have "group m ''limit'' = ''NL''"
    by blast
  with facts ok m pot_limit_header_no_match show ?thesis
    by (simp add: attr_of_def FullTiltHand_def)
qed

section \<open>Hole cards\<close>


lemma distinct_OrderedDict_aux:
  "distinct (map fst d) \<Longrightarrow> distinct (map fst (foldl (\<lambda>d (k, v). AList.update k v d) d ps))"
  by (induction ps arbitrary: d) (auto simp: distinct_update)

lemma distinct_OrderedDict: "distinct (map fst (OrderedDict ps))"
  by (simp add: OrderedDict_def distinct_OrderedDict_aux)



lemma sample_seats:
  "attr_of (parse_seats sample_hand) ''players'' =
     Some (PDict [(''Bob'', 1500), (''Empty Seat 2'', 0), (''Alice'', 980), (''Empty Seat 4'', 0),
       (''Cy'', 520), (''Empty Seat 6'', 0), (''Empty Seat 7'', 0), (''Empty Seat 8'', 0),
       (''Empty Seat 9'', 0)])"
  by code_simp


section \<open>The seat table\<close>

lemma declared_Nil [simp]: "declared [] = []"
  by (simp add: declared_def)

lemma declared_no_match:
  "re_match seat_pattern l = None \<Longrightarrow> declared (l # ls) = []"
  by (simp add: declared_def is_seat_line_def)

lemma declared_match:
  "re_match seat_pattern l = Some m \<Longrightarrow> py_int (group m ''1'') = Inr n \<Longrightarrow>
     declared (l # ls) = n # declared ls"
  by (simp add: declared_def is_seat_line_def seat_of_def)

lemma seats_loop_result:
  assumes "seats_loop ls ps sn = Inr (ps', sn')"
  shows "sn' = (if declared ls = [] then sn else Some (last (declared ls)))
       \<and> length ps' = length ps
       \<and> (\<forall>j<length ps. (\<forall>n\<in>set (declared ls). position (length ps) (n - 1) \<noteq> Some j)
              \<longrightarrow> ps' ! j = ps ! j)"
  using assms
proof (induction ls arbitrary: ps sn)
  case Nil
  then show ?case by simp
next
  case (Cons l ls)
  show ?case
  proof (cases "re_match seat_pattern l")
    case None
    with Cons.prems show ?thesis
      by (simp add: declared_no_match)
  next
    case (Some m)
    with Cons.prems obtain n stack ps1
      where n: "py_int (group m ''1'') = Inr n"
        and set: "setitem ps (n - 1) (group m ''2'', stack) = Inr ps1"
        and rest: "seats_loop ls ps1 (Some n) = Inr (ps', sn')"
      by (auto split: sum.splits)
    from set obtain j0 where j0: "position (length ps) (n - 1) = Some j0"
      and ps1: "ps1 = ps[j0 := (group m ''2'', stack)]"
      by (auto simp: setitem_def split: option.splits)
    then have len: "length ps1 = length ps"
      by simp
    note d = declared_match [OF Some n, of ls]
    from Cons.IH [OF rest] len
    have sn': "sn' = (if declared ls = [] then Some n else Some (last (declared ls)))"
      and len': "length ps' = length ps"
      and keep: "\<forall>j<length ps. (\<forall>n\<in>set (declared ls). position (length ps) (n - 1) \<noteq> Some j)
              \<longrightarrow> ps' ! j = ps1 ! j"
      by simp_all
    have "ps' ! j = ps ! j"
      if "j < length ps" and "\<forall>n\<in>set (declared (l # ls)). position (length ps) (n - 1) \<noteq> Some j"
      for j
    proof -
      from that(2) d j0 have "j \<noteq> j0" "\<forall>n\<in>set (declared ls). position (length ps) (n - 1) \<noteq> Some j"
        by auto
      with keep that(1) ps1 show ?thesis
        by simp
    qed
    with sn' len' d show ?thesis
      by simp
  qed
qed

lemma Max_sorted_last: "sorted xs \<Longrightarrow> xs \<noteq> [] \<Longrightarrow> Max (set xs) = last (xs :: int list)"
proof (induction xs)
  case Nil
  then show ?case by simp
next
  case (Cons x xs)
  show ?case
  proof (cases "xs = []")
    case True
    then show ?thesis by simp
  next
    case False
    with Cons have "Max (set xs) = last xs" "\<forall>y\<in>set xs. x \<le> y"
      by auto
    with False show ?thesis
      by (simp add: max_def)
  qed
qed

lemma empty_seats_nth:
  "j < 9 \<Longrightarrow> empty_seats ! j = (''Empty Seat '' @ str_of_nat (Suc j), 0)"
  by (simp add: empty_seats_def del: str_of_nat.simps)

lemma length_empty_seats: "length empty_seats = 9"
  by (simp add: empty_seats_def)

lemma parse_seats_ok:
  assumes "parse_seats h = Inr h'"
  shows "\<exists>players sn. seats_loop (drop 1 (splitted h)) empty_seats None = Inr (players, Some sn)
           \<and> attrs h' ''max_players'' = Some (PInt sn)
           \<and> attrs h' ''players'' = Some (PDict (OrderedDict players))"
  using assms
  by (auto simp: parse_seats_def attempt_def Let_def split: sum.splits option.splits prod.splits)

text \<open>
  C3 (as amended). \<^verbatim>\<open>max_players\<close> is the seat number of the last seat line. When the seat
  lines come in ascending order of seats 1 to 9, as the room writes them, that is the
  highest declared seat: 5 for seats 1, 3 and 5. The seat table has nine entries, and every
  seat from 1 to 9 that no line declares keeps its placeholder \<^verbatim>\<open>Empty Seat N\<close> with stack
  0 (seats 2 and 4, and 6 to 9 as well).
\<close>

theorem max_players_of_ascending_seats:
  assumes "parse_seats h = Inr h'"
    and "sorted (declared_seats h)"
    and "set (declared_seats h) \<subseteq> {1..9}"
  shows "attrs h' ''max_players'' = Some (PInt (last (declared_seats h)))
       \<and> last (declared_seats h) = Max (set (declared_seats h))
       \<and> (\<exists>players. attrs h' ''players'' = Some (PDict (OrderedDict players))
            \<and> length players = 9
            \<and> (\<forall>k\<in>{1..9::nat}. int k \<notin> set (declared_seats h) \<longrightarrow>
                  players ! (k - 1) = (''Empty Seat '' @ str_of_nat k, 0)))"
proof -
  from parse_seats_ok [OF assms(1)] obtain players sn
    where loop: "seats_loop (drop 1 (splitted h)) empty_seats None = Inr (players, Some sn)"
      and mp: "attrs h' ''max_players'' = Some (PInt sn)"
      and pl: "attrs h' ''players'' = Some (PDict (OrderedDict players))"
    by blast
  from seats_loop_result [OF loop]
  have sn: "Some sn = (if declared_seats h = [] then None else Some (last (declared_seats h)))"
    and len: "length players = 9"
    and keep: "\<forall>j<9. (\<forall>n\<in>set (declared_seats h). position 9 (n - 1) \<noteq> Some j)
                 \<longrightarrow> players ! j = empty_seats ! j"
    by (simp_all add: declared_seats_def length_empty_seats)
  from sn have ne: "declared_seats h \<noteq> []" and last: "sn = last (declared_seats h)"
    by (auto split: if_splits)
  have placeholder: "players ! (k - 1) = (''Empty Seat '' @ str_of_nat k, 0)"
    if "k \<in> {1..9}" and "int k \<notin> set (declared_seats h)" for k :: nat
  proof -
    from that(1) have k: "k - 1 < 9" "Suc (k - 1) = k"
      by auto
    have "position 9 (n - 1) \<noteq> Some (k - 1)" if "n \<in> set (declared_seats h)" for n
    proof -
      from that assms(3) have "1 \<le> n" "n \<le> 9" by auto
      moreover from that \<open>int k \<notin> set (declared_seats h)\<close> have "n \<noteq> int k"
        by auto
      ultimately show ?thesis
        using k by (auto simp: position_def)
    qed
    with keep k have "players ! (k - 1) = empty_seats ! (k - 1)"
      by blast
    with k show ?thesis
      using empty_seats_nth [of "k - 1"] by simp
  qed
  from mp last pl len placeholder Max_sorted_last [OF assms(2) ne] show ?thesis
    by auto
qed

lemma sample_declared: "declared_seats sample_hand = [1, 3, 5]"
  by code_simp

lemma sample_placeholder_names: "str_of_nat 2 = ''2''" "str_of_nat 4 = ''4''"
  by code_simp+

theorem max_players_of_ascending_seats_witness:
  "declared_seats sample_hand = [1, 3, 5]
   \<and> attr_of (parse_seats sample_hand) ''max_players'' = Some (PInt 5)
   \<and> (\<exists>players. attr_of (parse_seats sample_hand) ''players'' = Some (PDict (OrderedDict players))
         \<and> players ! 1 = (''Empty Seat 2'', 0) \<and> players ! 3 = (''Empty Seat 4'', 0))"
proof -
  from sample_seats obtain h' where ok: "parse_seats sample_hand = Inr h'"
    by (auto simp: attr_of_def split: sum.splits)
  have asc: "sorted (declared_seats sample_hand)"
    and range: "set (declared_seats sample_hand) \<subseteq> {1..9}"
    by (simp_all add: sample_declared)
  from max_players_of_ascending_seats [OF ok asc range] obtain players
    where mp: "attrs h' ''max_players'' = Some (PInt (last (declared_seats sample_hand)))"
      and pl: "attrs h' ''players'' = Some (PDict (OrderedDict players))"
      and ph: "\<forall>k\<in>{1..9::nat}. int k \<notin> set (declared_seats sample_hand) \<longrightarrow>
                  players ! (k - 1) = (''Empty Seat '' @ str_of_nat k, 0)"
    by blast
  from ph [rule_format, of 2] ph [rule_format, of 4]
  have "players ! 1 = (''Empty Seat 2'', 0)" "players ! 3 = (''Empty Seat 4'', 0)"
    by (simp_all add: sample_declared sample_placeholder_names del: str_of_nat.simps)
  with mp pl ok show ?thesis
    by (auto simp: attr_of_def sample_declared)
qed

text \<open>
  C3 as stated fails: seat lines for seats 5, 1 and 3, in this order, declare seats 1, 3
  and 5 only, and \<^verbatim>\<open>max_players\<close> is 3, the seat of the last line.
\<close>

theorem max_players_is_last_seat_line:
  "declared_seats (init unordered_seats_text) = [5, 1, 3]
   \<and> attr_of (parse_seats (init unordered_seats_text)) ''max_players'' = Some (PInt 3)"
  unfolding init_unordered_seats_text by code_simp

end
